theory Spec2Isabelle
  imports Complex_Main
begin

section \<open>The short-link registry of \<open>App.jsx\<close>\<close>

text \<open>
  The development embeds the registry of the URL shortener (\<open>URLProvider\<close>: \<open>addShortLinks\<close>,
  \<open>getShortLink\<close>, \<open>recordClick\<close>), the helpers \<open>generateShortcode\<close>, \<open>validateUrl\<close> and
  \<open>validateShortcode\<close>, and the form handlers \<open>validateForm\<close> and \<open>handleSubmit\<close> of
  \<open>URLShortenerForm\<close>. React state is passed explicitly: a call takes the state and returns
  the updated one, and an updater queued with a \<open>set...\<close> function is applied at once.
  What the handlers read from the environment is a parameter: the clock (\<open>new Date()\<close>), the
  random draws (\<open>Math.random()\<close>) and the platform's URL parser (\<open>new URL(url)\<close>).
  A string is a list of characters; the shortcode rules accept ASCII letters and digits
  only, so the encoding of other characters does not matter to them.
\<close>

subsection \<open>JavaScript values\<close>

text \<open>
  A JavaScript number. The finite ones are taken as rationals: the handlers only test them
  for truthiness, with \<open>Number.isInteger\<close> and with \<open>< 1\<close>, which are exact on the value.
\<close>

datatype jsnum = NaN | PosInf | NegInf | Fin rat

text \<open>Truthiness of a number: \<open>0\<close> and \<open>NaN\<close> are falsy.\<close>

fun truthy :: "jsnum \<Rightarrow> bool" where
  "truthy NaN = False"
| "truthy (Fin q) = (q \<noteq> 0)"
| "truthy _ = True"

text \<open>\<open>Number.isInteger(n)\<close>: finite, and equal to its own floor.\<close>

fun isInteger :: "jsnum \<Rightarrow> bool" where
  "isInteger (Fin q) = (of_int \<lfloor>q\<rfloor> = q)"
| "isInteger _ = False"

text \<open>\<open>n < 1\<close>; a comparison with \<open>NaN\<close> is false.\<close>

fun lt1 :: "jsnum \<Rightarrow> bool" where
  "lt1 (Fin q) = (q < 1)"
| "lt1 NegInf = True"
| "lt1 _ = False"

text \<open>
  The time value of a \<open>Date\<close> object: milliseconds since the epoch, or \<open>Invalid Date\<close>
  (time value \<open>NaN\<close>).
\<close>

datatype jsdate = InvalidDate | Date int

text \<open>\<open>a > b\<close> on two dates compares the time values; with \<open>NaN\<close> on a side it is false.\<close>

fun date_gt :: "jsdate \<Rightarrow> jsdate \<Rightarrow> bool" where
  "date_gt (Date a) (Date b) = (a > b)"
| "date_gt _ _ = False"

text \<open>\<open>a <= b\<close> on two dates, which the source never evaluates; it states when a link is live.\<close>

fun date_le :: "jsdate \<Rightarrow> jsdate \<Rightarrow> bool" where
  "date_le (Date a) (Date b) = (a \<le> b)"
| "date_le _ _ = False"

text \<open>
  \<open>new Date(t)\<close> on a number: \<open>TimeClip\<close> gives \<open>Invalid Date\<close> for a non-finite \<open>t\<close> and
  for \<open>|t| > 8.64e15\<close>, and drops the fraction otherwise.
\<close>

fun newDate :: "jsnum \<Rightarrow> jsdate" where
  "newDate (Fin q) =
     (if \<bar>q\<bar> > 8640000000000000 then InvalidDate
      else Date (if q < 0 then - \<lfloor>- q\<rfloor> else \<lfloor>q\<rfloor>))"
| "newDate _ = InvalidDate"

text \<open>
  \<open>t + (v * 60 * 1000)\<close> for a finite time value \<open>t\<close>. The product and the sum are taken
  exactly; for an integer \<open>v\<close> the double arithmetic of JavaScript is exact up to \<open>2 ^ 53\<close>,
  beyond the range where \<open>newDate\<close> still gives a valid date.
\<close>

fun plusMinutes :: "int \<Rightarrow> jsnum \<Rightarrow> jsnum" where
  "plusMinutes t (Fin q) = Fin (of_int t + q * 60 * 1000)"
| "plusMinutes t n = n"

subsection \<open>Data model\<close>

text \<open>The metadata of one click, as \<open>RedirectHandler\<close> builds it.\<close>

record click_event =
  timestamp :: jsdate
  referrer :: string
  location :: string

text \<open>
  A short link, as \<open>handleSubmit\<close> builds it. \<open>clickCount\<close> is a JavaScript number that only
  ever holds a count; counts stay far below \<open>2 ^ 53\<close>, where \<open>+ 1\<close> is exact.
\<close>

record short_link =
  link_id :: string
  originalUrl :: string
  shortcode :: string
  validityMinutes :: jsnum
  createdAt :: jsdate
  expiresAt :: jsdate
  clickCount :: int
  clicks :: "click_event list"

text \<open>The structured payload of a log entry, one constructor per object literal logged.\<close>

datatype log_data =
    CountData nat
  | ShortcodeData string
  | ClickData string click_event
  | ErrorsData "string list"

record log_entry =
  timestamp :: jsdate
  level :: string
  message :: string
  data :: log_data

text \<open>The state of \<open>LoggingProvider\<close> and \<open>URLProvider\<close>.\<close>

record app_state =
  shortLinks :: "short_link list"
  logs :: "log_entry list"

subsection \<open>Logging\<close>

text \<open>
  \<open>log(level, message, data)\<close> appends one entry stamped with the clock reading \<open>t\<close>
  (\<open>log_ev\<close> here, the name \<open>log\<close> being the logarithm).
\<close>

definition log_ev :: "int \<Rightarrow> string \<Rightarrow> string \<Rightarrow> log_data \<Rightarrow> app_state \<Rightarrow> app_state" where
  "log_ev t lvl msg d st =
     st\<lparr>logs := logs st @ [\<lparr>timestamp = Date t, level = lvl, message = msg, data = d\<rparr>]\<rparr>"

text \<open>The decimal text of a count, as a template literal prints \<open>links.length\<close>.\<close>

fun string_of_nat :: "nat \<Rightarrow> string" where
  "string_of_nat n =
     (if n < 10 then [char_of (48 + n)]
      else string_of_nat (n div 10) @ [char_of (48 + n mod 10)])"

declare string_of_nat.simps [simp del]

subsection \<open>The registry\<close>

definition addShortLinks :: "int \<Rightarrow> short_link list \<Rightarrow> app_state \<Rightarrow> app_state" where
  "addShortLinks t links st =
     log_ev t ''info'' (''Added '' @ string_of_nat (length links) @ '' short links'')
       (CountData (length links))
       (st\<lparr>shortLinks := shortLinks st @ links\<rparr>)"

text \<open>
  \<open>getShortLink\<close> reads the clock for the expiry test (\<open>now\<close>) and, when it logs, once more
  for the entry (\<open>t\<close>). The result \<open>None\<close> is \<open>undefined\<close>.
\<close>

definition getShortLink ::
  "int \<Rightarrow> int \<Rightarrow> string \<Rightarrow> app_state \<Rightarrow> short_link option \<times> app_state" where
  "getShortLink now t sc st =
     (case find (\<lambda>l. shortcode l = sc) (shortLinks st) of
        None \<Rightarrow> (None, st)
      | Some link \<Rightarrow>
          if date_gt (Date now) (expiresAt link)
          then (None, log_ev t ''warning'' (''Link expired: '' @ sc) (ShortcodeData sc) st)
          else (Some link, st))"

definition recordClick :: "int \<Rightarrow> string \<Rightarrow> click_event \<Rightarrow> app_state \<Rightarrow> app_state" where
  "recordClick t sc metadata st =
     log_ev t ''info'' (''Click recorded for '' @ sc) (ClickData sc metadata)
       (st\<lparr>shortLinks :=
          map (\<lambda>link. if shortcode link = sc
                       then link\<lparr>clickCount := clickCount link + 1,
                                 clicks := clicks link @ [metadata]\<rparr>
                       else link)
            (shortLinks st)\<rparr>)"

subsection \<open>Shortcodes\<close>

definition chars :: string where
  "chars = ''ABCDEFGHIJKLMNOPQRSTUVWXYZabcdefghijklmnopqrstuvwxyz0123456789''"

text \<open>\<open>s.charAt(i)\<close>: the one-character string at \<open>i\<close>, the empty string out of range.\<close>

definition charAt :: "string \<Rightarrow> nat \<Rightarrow> string" where
  "charAt s i = (if i < length s then [s ! i] else [])"

text \<open>
  \<open>generateShortcode\<close>. The random source \<open>rnd\<close> gives the value of
  \<open>Math.floor(Math.random() * chars.length)\<close> at each draw, \<open>pos\<close> counts the draws made
  so far; the six draws of one call are \<open>rnd pos\<close>, ..., \<open>rnd (pos + 5)\<close>.
\<close>

definition generateShortcode :: "(nat \<Rightarrow> nat) \<Rightarrow> nat \<Rightarrow> string" where
  "generateShortcode rnd pos = foldl (\<lambda>result i. result @ charAt chars (rnd (pos + i))) [] [0..<6]"

text \<open>The character class \<open>[a-zA-Z0-9]\<close>, by character code.\<close>

definition alnum :: "char \<Rightarrow> bool" where
  "alnum c = (let n = (of_char c :: nat) in
     (97 \<le> n \<and> n \<le> 122) \<or> (65 \<le> n \<and> n \<le> 90) \<or> (48 \<le> n \<and> n \<le> 57))"

text \<open>\<open>/^[a-zA-Z0-9]{3,20}$/.test(shortcode)\<close>.\<close>

definition validateShortcode :: "string \<Rightarrow> bool" where
  "validateShortcode sc = (3 \<le> length sc \<and> length sc \<le> 20 \<and> list_all alnum sc)"

text \<open>
  \<open>validateUrl(url)\<close> is true when \<open>new URL(url)\<close> does not throw. The parser of the
  platform is the parameter \<open>parses\<close>.
\<close>

definition validateUrl :: "(string \<Rightarrow> bool) \<Rightarrow> string \<Rightarrow> bool" where
  "validateUrl parses u = parses u"

text \<open>
  The loop \<open>do { shortcode = generateShortcode(); } while (usedShortcodes.has(shortcode))\<close>
  of \<open>handleSubmit\<close>. It has no bound in the source: \<open>None\<close> is the loop that never ends.
\<close>

partial_function (option) uniqueShortcode ::
  "(nat \<Rightarrow> nat) \<Rightarrow> nat \<Rightarrow> string set \<Rightarrow> string option" where
  "uniqueShortcode rnd pos usedShortcodes =
     (let sc = generateShortcode rnd pos in
      if sc \<in> usedShortcodes then uniqueShortcode rnd (pos + 6) usedShortcodes
      else Some sc)"

declare uniqueShortcode.simps [code]

subsection \<open>The creation form\<close>

text \<open>The fields of the form (the state \<open>url\<close> of \<open>URLShortenerForm\<close>).\<close>

record url_form =
  originalUrl :: string
  validityMinutes :: jsnum
  customShortcode :: string

record form_state =
  url :: url_form
  errors :: "string list"
  loading :: bool
  successMessage :: "string option"

text \<open>
  \<open>validateForm\<close>, returning the list \<open>newErrors\<close> it stores with \<open>setErrors\<close>; the boolean
  it returns is \<open>newErrors.length === 0\<close>. An empty string is falsy.
\<close>

definition validateForm :: "(string \<Rightarrow> bool) \<Rightarrow> short_link list \<Rightarrow> url_form \<Rightarrow> string list" where
  "validateForm parses links u =
     (let usedShortcodes = set (map shortcode links) in
      (if url_form.originalUrl u = [] then [''URL is required'']
       else if \<not> validateUrl parses (url_form.originalUrl u) then [''Invalid URL format'']
       else [])
      @
      (if truthy (url_form.validityMinutes u)
          \<and> (\<not> isInteger (url_form.validityMinutes u) \<or> lt1 (url_form.validityMinutes u))
       then [''Validity must be a positive integer'']
       else [])
      @
      (if customShortcode u \<noteq> [] then
         (if \<not> validateShortcode (customShortcode u)
          then [''Shortcode must be 3-20 alphanumeric characters'']
          else if customShortcode u \<in> usedShortcodes then [''Shortcode already exists'']
          else [])
       else []))"

text \<open>
  \<open>handleSubmit\<close>. \<open>clk k\<close> is the \<open>k\<close>-th reading of the clock in the call and \<open>newId\<close> the
  value of \<open>Math.random().toString(36).substr(2, 9)\<close>. When validation fails the handler
  logs the \<open>errors\<close> of the state it was rendered with and returns; nothing in the \<open>try\<close>
  block throws, so its \<open>catch\<close> has no branch here. \<open>None\<close> is the shortcode loop not ending.
\<close>

definition handleSubmit ::
  "(string \<Rightarrow> bool) \<Rightarrow> (nat \<Rightarrow> nat) \<Rightarrow> string \<Rightarrow> (nat \<Rightarrow> int) \<Rightarrow>
     app_state \<times> form_state \<Rightarrow> (app_state \<times> form_state) option" where
  "handleSubmit parses rnd newId clk s =
     (let st = fst s; fs = snd s; u = url fs;
          newErrors = validateForm parses (shortLinks st) u in
      if newErrors \<noteq> [] then
        Some (log_ev (clk 0) ''error'' ''Form validation failed'' (ErrorsData (errors fs)) st,
              fs\<lparr>errors := newErrors\<rparr>)
      else
        case (if customShortcode u \<noteq> [] then Some (customShortcode u)
              else uniqueShortcode rnd 0 (set (map shortcode (shortLinks st)))) of
          None \<Rightarrow> None
        | Some sc \<Rightarrow>
            let newShortLink =
                  \<lparr>link_id = newId,
                   originalUrl = url_form.originalUrl u,
                   shortcode = sc,
                   validityMinutes = url_form.validityMinutes u,
                   createdAt = Date (clk 0),
                   expiresAt = newDate (plusMinutes (clk 0) (url_form.validityMinutes u)),
                   clickCount = 0,
                   clicks = []\<rparr>
            in Some (log_ev (clk 2) ''info'' ''Successfully created short link'' (ShortcodeData sc)
                       (addShortLinks (clk 1) [newShortLink] st),
                     \<lparr>url = \<lparr>originalUrl = [], validityMinutes = Fin 30, customShortcode = []\<rparr>,
                      errors = newErrors,
                      loading = False,
                      successMessage = Some ''Successfully created short link!''\<rparr>))"

subsection \<open>Registry states\<close>

text \<open>
  The states the registry can be in: it starts empty, and changes by \<open>handleSubmit\<close>,
  \<open>recordClick\<close> and the log entry of \<open>getShortLink\<close>. A draw of the random source is an
  index into \<open>chars\<close>, since \<open>Math.random()\<close> is below 1.
\<close>

inductive reachable :: "(string \<Rightarrow> bool) \<Rightarrow> app_state \<Rightarrow> bool" for parses where
  init: "reachable parses \<lparr>shortLinks = [], logs = []\<rparr>"
| create: "reachable parses st \<Longrightarrow> (\<And>n. rnd n < length chars) \<Longrightarrow>
           handleSubmit parses rnd newId clk (st, fs) = Some (st', fs') \<Longrightarrow>
           reachable parses st'"
| click: "reachable parses st \<Longrightarrow> reachable parses (recordClick t sc metadata st)"
| lookup: "reachable parses st \<Longrightarrow> reachable parses (snd (getShortLink now t sc st))"

text \<open>Calls of \<open>recordClick\<close> on one shortcode, one after another, each with its clock
  reading and its metadata.\<close>

definition recordClicks :: "string \<Rightarrow> (int \<times> click_event) list \<Rightarrow> app_state \<Rightarrow> app_state" where
  "recordClicks sc calls st = foldl (\<lambda>s c. recordClick (fst c) sc (snd c) s) st calls"

subsection \<open>Concrete inputs\<close>

text \<open>
  Inputs at which the theorems below are instantiated: a parser that accepts an
  \<open>https\<close> URL with a non-empty rest; random sources and clocks; two clicks; the forms
  submitted; and the registry \<open>st_a\<close> that \<open>handleSubmit\<close> leaves when
  \<open>https://a.com\<close> is submitted to the empty registry at time 1000 with a validity of
  one minute and the custom shortcode \<open>validCode123\<close>, so that its link expires at 61000.
\<close>

definition parses_https :: "string \<Rightarrow> bool" where
  "parses_https u = (take 8 u = ''https://'' \<and> 8 < length u)"

definition rnd_sample :: "nat \<Rightarrow> nat" where
  "rnd_sample n = (7 * n + 3) mod 62"

definition rnd_zero :: "nat \<Rightarrow> nat" where
  "rnd_zero n = 0"

definition clk_sample :: "nat \<Rightarrow> int" where
  "clk_sample k = 1000 + int k"

definition clk_late :: "nat \<Rightarrow> int" where
  "clk_late k = 100000 + int k"

definition click1 :: click_event where
  "click1 = \<lparr>click_event.timestamp = Date 70000, referrer = ''Direct'', location = ''Tokyo, JP''\<rparr>"

definition click2 :: click_event where
  "click2 = \<lparr>click_event.timestamp = Date 70100, referrer = ''Direct'', location = ''London, UK''\<rparr>"

definition form_of :: "string \<Rightarrow> jsnum \<Rightarrow> string \<Rightarrow> form_state" where
  "form_of u v c = \<lparr>url = \<lparr>originalUrl = u, validityMinutes = v, customShortcode = c\<rparr>,
                    errors = [], loading = False, successMessage = None\<rparr>"

definition form_done :: form_state where
  "form_done = \<lparr>url = \<lparr>originalUrl = [], validityMinutes = Fin 30, customShortcode = []\<rparr>,
                 errors = [], loading = False,
                 successMessage = Some ''Successfully created short link!''\<rparr>"

definition st_empty :: app_state where
  "st_empty = \<lparr>shortLinks = [], logs = []\<rparr>"

definition link_a :: short_link where
  "link_a = \<lparr>link_id = ''k3j9x0a1b'', originalUrl = ''https://a.com'',
             shortcode = ''validCode123'', validityMinutes = Fin 1,
             createdAt = Date 1000, expiresAt = Date 61000,
             clickCount = 0, clicks = []\<rparr>"

definition st_a :: app_state where
  "st_a = \<lparr>shortLinks = [link_a],
           logs = [\<lparr>timestamp = Date 1001, level = ''info'',
                    message = ''Added 1 short links'', data = CountData 1\<rparr>,
                   \<lparr>timestamp = Date 1002, level = ''info'',
                    message = ''Successfully created short link'',
                    data = ShortcodeData ''validCode123''\<rparr>]\<rparr>"

text \<open>A registry whose only link has the shortcode that \<open>rnd_sample\<close> draws first.\<close>

definition st_d :: app_state where
  "st_d = \<lparr>shortLinks = [link_a\<lparr>shortcode := ''DKRYfm''\<rparr>], logs = []\<rparr>"

section \<open>Properties\<close>

subsection \<open>Projections of the registry operations\<close>

lemma shortLinks_log_ev: "shortLinks (log_ev t lvl msg d st) = shortLinks st"
  by (simp add: log_ev_def)

lemma logs_log_ev:
  "logs (log_ev t lvl msg d st) =
     logs st @ [\<lparr>timestamp = Date t, level = lvl, message = msg, data = d\<rparr>]"
  by (simp add: log_ev_def)

lemma shortLinks_recordClick:
  "shortLinks (recordClick t sc m st) =
     map (\<lambda>link. if shortcode link = sc
                  then link\<lparr>clickCount := clickCount link + 1, clicks := clicks link @ [m]\<rparr>
                  else link) (shortLinks st)"
  by (simp add: recordClick_def shortLinks_log_ev)

lemma logs_recordClick:
  "logs (recordClick t sc m st) =
     logs st @ [\<lparr>timestamp = Date t, level = ''info'',
                 message = ''Click recorded for '' @ sc, data = ClickData sc m\<rparr>]"
  by (simp add: recordClick_def logs_log_ev)

lemma shortLinks_recordClicks:
  "shortLinks (recordClicks sc calls st) =
     map (\<lambda>link. if shortcode link = sc
                  then link\<lparr>clickCount := clickCount link + int (length calls),
                            clicks := clicks link @ map snd calls\<rparr>
                  else link) (shortLinks st)"
proof (induction calls arbitrary: st)
  case Nil
  show ?case by (simp add: recordClicks_def map_idI)
next
  case (Cons c calls)
  have "recordClicks sc (c # calls) st = recordClicks sc calls (recordClick (fst c) sc (snd c) st)"
    by (simp add: recordClicks_def)
  then show ?case
    by (simp add: Cons.IH shortLinks_recordClick o_def if_distrib cong: if_cong)
qed

lemma find_first_index:
  assumes "i < length xs" and "P (xs ! i)" and "\<forall>j < i. \<not> P (xs ! j)"
  shows "find P xs = Some (xs ! i)"
  using assms by (auto simp: find_Some_iff)

subsection \<open>Recording clicks\<close>

text \<open>
  C2, as the code has it. When no record has the shortcode, \<open>recordClick\<close> leaves the
  records as they are and has no failing branch, but it is not silent: it appends the
  info-level entry \<open>Click recorded for <shortcode>\<close> to the log, as on every call.
\<close>

theorem recordClick_unknown:
  assumes "\<forall>l \<in> set (shortLinks st). shortcode l \<noteq> sc"
  shows "shortLinks (recordClick t sc m st) = shortLinks st \<and>
         logs (recordClick t sc m st) =
           logs st @ [\<lparr>timestamp = Date t, level = ''info'',
                       message = ''Click recorded for '' @ sc, data = ClickData sc m\<rparr>]"
proof -
  have "map (\<lambda>link. if shortcode link = sc
                  then link\<lparr>clickCount := clickCount link + 1, clicks := clicks link @ [m]\<rparr>
                  else link) (shortLinks st) = shortLinks st"
    using assms by (induction "shortLinks st") (auto simp: map_idI)
  then show ?thesis by (simp add: shortLinks_recordClick logs_recordClick)
qed

theorem recordClick_unknown_witness:
  "shortLinks (recordClick 70001 ''unknown-code'' click1 st_a) = [link_a] \<and>
   logs (recordClick 70001 ''unknown-code'' click1 st_a) =
     logs st_a @ [\<lparr>timestamp = Date 70001, level = ''info'',
                   message = ''Click recorded for unknown-code'',
                   data = ClickData ''unknown-code'' click1\<rparr>]"
  using recordClick_unknown [of st_a "''unknown-code''" 70001 click1]
  by (simp add: st_a_def link_a_def)

text \<open>
  C2 as stated fails: on the registry holding only \<open>validCode123\<close>, a click on
  \<open>unknown-code\<close> changes the log.
\<close>

theorem recordClick_unknown_logs:
  "logs (recordClick 70001 ''unknown-code'' click1 st_a) \<noteq> logs st_a"
  by (simp add: logs_recordClick st_a_def)

text \<open>
  C8. After \<open>N\<close> calls of \<open>recordClick\<close> on the shortcode of a record of the registry, the
  record's \<open>clickCount\<close> has grown by \<open>N\<close> and its \<open>clicks\<close> by the metadata of the calls, in
  call order; for a record as created (count 0, no clicks) they are \<open>N\<close> and exactly that
  list. No clock reading and no \<open>expiresAt\<close> enters the condition: an expired record
  counts clicks like any other.
\<close>

theorem recordClicks_counts:
  assumes "i < length (shortLinks st)" and "shortcode (shortLinks st ! i) = sc"
  shows "clickCount (shortLinks (recordClicks sc calls st) ! i) =
           clickCount (shortLinks st ! i) + int (length calls) \<and>
         clicks (shortLinks (recordClicks sc calls st) ! i) =
           clicks (shortLinks st ! i) @ map snd calls \<and>
         (clickCount (shortLinks st ! i) = 0 \<and> clicks (shortLinks st ! i) = [] \<longrightarrow>
            clickCount (shortLinks (recordClicks sc calls st) ! i) = int (length calls) \<and>
            clicks (shortLinks (recordClicks sc calls st) ! i) = map snd calls)"
  using assms by (simp add: shortLinks_recordClicks)

text \<open>Two clicks at times 70001 and 70101 on the link that expired at 61000.\<close>

theorem recordClicks_counts_witness:
  "0 < length (shortLinks st_a) \<and> shortcode (shortLinks st_a ! 0) = ''validCode123'' \<and>
   clickCount (shortLinks (recordClicks ''validCode123'' [(70001, click1), (70101, click2)] st_a) ! 0) = 2 \<and>
   clicks (shortLinks (recordClicks ''validCode123'' [(70001, click1), (70101, click2)] st_a) ! 0) =
     [click1, click2]"
  using recordClicks_counts [of 0 st_a "''validCode123''" "[(70001, click1), (70101, click2)]"]
  by (simp add: st_a_def link_a_def)

text \<open>
  C10. \<open>recordClick\<close> keeps the number and the positions of the records; a record with
  another shortcode is unchanged, a record with the shortcode changes in \<open>clickCount\<close>
  and \<open>clicks\<close> only: \<open>id\<close>, \<open>originalUrl\<close>, \<open>shortcode\<close>, \<open>validityMinutes\<close>, \<open>createdAt\<close> and
  \<open>expiresAt\<close> stay.
\<close>

theorem recordClick_frame:
  "length (shortLinks (recordClick t sc m st)) = length (shortLinks st) \<and>
   (\<forall>i < length (shortLinks st).
      (shortcode (shortLinks st ! i) \<noteq> sc \<longrightarrow>
         shortLinks (recordClick t sc m st) ! i = shortLinks st ! i) \<and>
      (shortcode (shortLinks st ! i) = sc \<longrightarrow>
         shortLinks (recordClick t sc m st) ! i =
           (shortLinks st ! i)\<lparr>clickCount := clickCount (shortLinks st ! i) + 1,
                                clicks := clicks (shortLinks st ! i) @ [m]\<rparr>) \<and>
      link_id (shortLinks (recordClick t sc m st) ! i) = link_id (shortLinks st ! i) \<and>
      short_link.originalUrl (shortLinks (recordClick t sc m st) ! i) =
        short_link.originalUrl (shortLinks st ! i) \<and>
      shortcode (shortLinks (recordClick t sc m st) ! i) = shortcode (shortLinks st ! i) \<and>
      short_link.validityMinutes (shortLinks (recordClick t sc m st) ! i) =
        short_link.validityMinutes (shortLinks st ! i) \<and>
      createdAt (shortLinks (recordClick t sc m st) ! i) = createdAt (shortLinks st ! i) \<and>
      expiresAt (shortLinks (recordClick t sc m st) ! i) = expiresAt (shortLinks st ! i))"
  by (simp add: shortLinks_recordClick)

theorem recordClick_frame_witness:
  "shortLinks (recordClick 70001 ''other'' click1 st_a) ! 0 = link_a \<and>
   shortLinks (recordClick 70001 ''validCode123'' click1 st_a) ! 0 =
     link_a\<lparr>clickCount := 1, clicks := [click1]\<rparr> \<and>
   expiresAt (shortLinks (recordClick 70001 ''validCode123'' click1 st_a) ! 0) = Date 61000"
  using recordClick_frame [of 70001 "''other''" click1 st_a]
    recordClick_frame [of 70001 "''validCode123''" click1 st_a]
  by (simp add: st_a_def link_a_def)

subsection \<open>Looking a shortcode up\<close>

text \<open>
  C5. Let the record at position \<open>i\<close> be the first with the shortcode. If the current time
  is at most its \<open>expiresAt\<close>, \<open>getShortLink\<close> returns it and changes nothing. If the
  current time is past its \<open>expiresAt\<close>, the result is \<open>undefined\<close>, the log grows by one
  warning-level entry \<open>Link expired: <shortcode>\<close>, and the records are as before, the
  expired one among them. If no record has the shortcode, the result is \<open>undefined\<close> and
  nothing is logged.
\<close>

theorem getShortLink_cases:
  "(i < length (shortLinks st) \<and> shortcode (shortLinks st ! i) = sc \<and>
      (\<forall>j < i. shortcode (shortLinks st ! j) \<noteq> sc) \<and>
      date_le (Date now) (expiresAt (shortLinks st ! i)) \<longrightarrow>
        getShortLink now t sc st = (Some (shortLinks st ! i), st)) \<and>
   (i < length (shortLinks st) \<and> shortcode (shortLinks st ! i) = sc \<and>
      (\<forall>j < i. shortcode (shortLinks st ! j) \<noteq> sc) \<and>
      date_gt (Date now) (expiresAt (shortLinks st ! i)) \<longrightarrow>
        getShortLink now t sc st =
          (None, st\<lparr>logs := logs st @ [\<lparr>timestamp = Date t, level = ''warning'',
                         message = ''Link expired: '' @ sc, data = ShortcodeData sc\<rparr>]\<rparr>) \<and>
        shortLinks (snd (getShortLink now t sc st)) = shortLinks st \<and>
        shortLinks st ! i \<in> set (shortLinks (snd (getShortLink now t sc st)))) \<and>
   ((\<forall>l \<in> set (shortLinks st). shortcode l \<noteq> sc) \<longrightarrow>
        getShortLink now t sc st = (None, st))"
proof (intro conjI impI)
  assume a: "i < length (shortLinks st) \<and> shortcode (shortLinks st ! i) = sc \<and>
      (\<forall>j < i. shortcode (shortLinks st ! j) \<noteq> sc) \<and>
      date_le (Date now) (expiresAt (shortLinks st ! i))"
  then have f: "find (\<lambda>l. shortcode l = sc) (shortLinks st) = Some (shortLinks st ! i)"
    by (intro find_first_index) auto
  from a have "\<not> date_gt (Date now) (expiresAt (shortLinks st ! i))"
    by (cases "expiresAt (shortLinks st ! i)") auto
  with f show "getShortLink now t sc st = (Some (shortLinks st ! i), st)"
    by (simp add: getShortLink_def)
next
  assume a: "i < length (shortLinks st) \<and> shortcode (shortLinks st ! i) = sc \<and>
      (\<forall>j < i. shortcode (shortLinks st ! j) \<noteq> sc) \<and>
      date_gt (Date now) (expiresAt (shortLinks st ! i))"
  then have f: "find (\<lambda>l. shortcode l = sc) (shortLinks st) = Some (shortLinks st ! i)"
    by (intro find_first_index) auto
  with a show g: "getShortLink now t sc st =
          (None, st\<lparr>logs := logs st @ [\<lparr>timestamp = Date t, level = ''warning'',
                         message = ''Link expired: '' @ sc, data = ShortcodeData sc\<rparr>]\<rparr>)"
    by (simp add: getShortLink_def log_ev_def)
  then show "shortLinks (snd (getShortLink now t sc st)) = shortLinks st" by simp
  with a show "shortLinks st ! i \<in> set (shortLinks (snd (getShortLink now t sc st)))" by simp
next
  assume "\<forall>l \<in> set (shortLinks st). shortcode l \<noteq> sc"
  then have "find (\<lambda>l. shortcode l = sc) (shortLinks st) = None"
    by (simp add: find_None_iff)
  then show "getShortLink now t sc st = (None, st)"
    by (simp add: getShortLink_def)
qed

text \<open>The link expires at 61000: found at 1500, expired at 70000, and no \<open>unknown-code\<close>.\<close>

theorem getShortLink_cases_witness:
  "getShortLink 1500 1501 ''validCode123'' st_a = (Some link_a, st_a) \<and>
   fst (getShortLink 70000 70001 ''validCode123'' st_a) = None \<and>
   logs (snd (getShortLink 70000 70001 ''validCode123'' st_a)) =
     logs st_a @ [\<lparr>timestamp = Date 70001, level = ''warning'',
                   message = ''Link expired: validCode123'',
                   data = ShortcodeData ''validCode123''\<rparr>] \<and>
   shortLinks (snd (getShortLink 70000 70001 ''validCode123'' st_a)) = [link_a] \<and>
   getShortLink 70000 70001 ''unknown-code'' st_a = (None, st_a)"
  using getShortLink_cases [of 0 st_a "''validCode123''" 1500 1501]
    getShortLink_cases [of 0 st_a "''validCode123''" 70000 70001]
    getShortLink_cases [of 0 st_a "''unknown-code''" 70000 70001]
  by (simp add: st_a_def link_a_def)

text \<open>
  C9. A second \<open>getShortLink\<close> at the same current time, right after the first, returns
  what the first returned (the first may have logged; it changes no record).
\<close>

theorem getShortLink_twice:
  "fst (getShortLink now t2 sc (snd (getShortLink now t1 sc st))) =
   fst (getShortLink now t1 sc st)"
  by (simp add: getShortLink_def shortLinks_log_ev split: option.split)

theorem getShortLink_twice_witness:
  "fst (getShortLink 70000 70002 ''validCode123''
          (snd (getShortLink 70000 70001 ''validCode123'' st_a))) = None \<and>
   fst (getShortLink 1500 1502 ''validCode123''
          (snd (getShortLink 1500 1501 ''validCode123'' st_a))) = Some link_a"
  using getShortLink_twice [of 70000 70002 "''validCode123''" 70001 st_a]
    getShortLink_twice [of 1500 1502 "''validCode123''" 1501 st_a]
  by (simp add: getShortLink_def st_a_def link_a_def)

subsection \<open>Validation of the form\<close>

lemma validateForm_failed:
  assumes "validateForm parses (shortLinks st) (url fs) \<noteq> []"
  shows "handleSubmit parses rnd newId clk (st, fs) =
           Some (log_ev (clk 0) ''error'' ''Form validation failed'' (ErrorsData (errors fs)) st,
                 fs\<lparr>errors := validateForm parses (shortLinks st) (url fs)\<rparr>)"
  using assms by (simp add: handleSubmit_def Let_def)

lemma validity_message_iff:
  "''Validity must be a positive integer'' \<in> set (validateForm parses links u) \<longleftrightarrow>
     truthy (url_form.validityMinutes u) \<and>
     (\<not> isInteger (url_form.validityMinutes u) \<or> lt1 (url_form.validityMinutes u))"
  by (simp add: validateForm_def Let_def)

lemma three_halves_not_integer: "isInteger (Fin (3 / 2)) = False"
  by code_simp

lemma thirty_integer: "isInteger (Fin 30) = True"
  by simp

text \<open>
  C3, as the code has it. The validity rule is guarded by the truthiness of
  \<open>validityMinutes\<close>. A value that is truthy (neither 0 nor \<open>NaN\<close>) and is not an integer or
  is below 1, such as -5 or 1.5, makes the submission fail with
  \<open>Validity must be a positive integer\<close> among the errors and no record added. A falsy value,
  0 among them, skips the rule: no validity violation is reported.
\<close>

theorem validity_rule:
  "(truthy (url_form.validityMinutes (url fs)) \<and>
      (\<not> isInteger (url_form.validityMinutes (url fs)) \<or> lt1 (url_form.validityMinutes (url fs))) \<longrightarrow>
      (\<exists>st' fs'. handleSubmit parses rnd newId clk (st, fs) = Some (st', fs') \<and>
         ''Validity must be a positive integer'' \<in> set (errors fs') \<and>
         shortLinks st' = shortLinks st)) \<and>
   (\<not> truthy (url_form.validityMinutes (url fs)) \<longrightarrow>
      ''Validity must be a positive integer'' \<notin> set (validateForm parses (shortLinks st) (url fs)))"
proof (intro conjI impI)
  assume a: "truthy (url_form.validityMinutes (url fs)) \<and>
      (\<not> isInteger (url_form.validityMinutes (url fs)) \<or> lt1 (url_form.validityMinutes (url fs)))"
  then have m: "''Validity must be a positive integer'' \<in> set (validateForm parses (shortLinks st) (url fs))"
    by (simp only: validity_message_iff)
  then have "validateForm parses (shortLinks st) (url fs) \<noteq> []" by auto
  from validateForm_failed [OF this] m
  show "\<exists>st' fs'. handleSubmit parses rnd newId clk (st, fs) = Some (st', fs') \<and>
         ''Validity must be a positive integer'' \<in> set (errors fs') \<and>
         shortLinks st' = shortLinks st"
    by (simp add: shortLinks_log_ev)
next
  assume "\<not> truthy (url_form.validityMinutes (url fs))"
  then show "''Validity must be a positive integer'' \<notin> set (validateForm parses (shortLinks st) (url fs))"
    by (simp only: validity_message_iff) simp
qed

text \<open>Validity -5 and 1.5 are refused; validity 0 passes validation.\<close>

theorem validity_rule_witness:
  "errors (snd (the (handleSubmit parses_https rnd_sample ''k3j9x0a1b'' clk_sample
      (st_a, form_of ''https://a.com'' (Fin (- 5)) [])))) = [''Validity must be a positive integer''] \<and>
   shortLinks (fst (the (handleSubmit parses_https rnd_sample ''k3j9x0a1b'' clk_sample
      (st_a, form_of ''https://a.com'' (Fin (- 5)) [])))) = [link_a] \<and>
   errors (snd (the (handleSubmit parses_https rnd_sample ''k3j9x0a1b'' clk_sample
      (st_a, form_of ''https://a.com'' (Fin (3 / 2)) [])))) = [''Validity must be a positive integer''] \<and>
   validateForm parses_https (shortLinks st_a) (url (form_of ''https://a.com'' (Fin 0) [])) = []"
  using validity_rule [of "form_of ''https://a.com'' (Fin (- 5)) []" parses_https rnd_sample "''k3j9x0a1b''" clk_sample st_a]
   validity_rule [of "form_of ''https://a.com'' (Fin 0) []" parses_https rnd_sample "''k3j9x0a1b''" clk_sample st_a]
  by (simp add: handleSubmit_def validateForm_def validateUrl_def parses_https_def form_of_def
      st_a_def link_a_def Let_def three_halves_not_integer del: isInteger.simps)

text \<open>
  C3 as stated fails: \<open>https://a.com\<close> with validity 0, submitted to the empty registry,
  passes validation, and the link is created with \<open>expiresAt\<close> equal to \<open>createdAt\<close>.
\<close>

theorem validity_zero_accepted:
  "validateForm parses_https [] (url (form_of ''https://a.com'' (Fin 0) [])) = [] \<and>
   handleSubmit parses_https rnd_sample ''k3j9x0a1b'' clk_sample
      (st_empty, form_of ''https://a.com'' (Fin 0) []) =
     Some (\<lparr>shortLinks =
              [\<lparr>link_id = ''k3j9x0a1b'', originalUrl = ''https://a.com'', shortcode = ''DKRYfm'',
                validityMinutes = Fin 0, createdAt = Date 1000, expiresAt = Date 1000,
                clickCount = 0, clicks = []\<rparr>],
            logs =
              [\<lparr>timestamp = Date 1001, level = ''info'', message = ''Added 1 short links'',
                data = CountData 1\<rparr>,
               \<lparr>timestamp = Date 1002, level = ''info'',
                message = ''Successfully created short link'', data = ShortcodeData ''DKRYfm''\<rparr>]\<rparr>,
           form_done)"
  by code_simp

text \<open>
  C4. Each message is in the error list exactly when its own rule is violated, whatever
  the other inputs are: an empty URL gives \<open>URL is required\<close> and never
  \<open>Invalid URL format\<close>, which is for a non-empty URL that does not parse; the validity
  and the shortcode messages follow their own inputs. No message is repeated, and when the
  list is not empty the submission fails with the whole list as its errors.
\<close>

theorem validateForm_accumulates:
  "(''URL is required'' \<in> set (validateForm parses (shortLinks st) (url fs)) \<longleftrightarrow>
      url_form.originalUrl (url fs) = []) \<and>
   (''Invalid URL format'' \<in> set (validateForm parses (shortLinks st) (url fs)) \<longleftrightarrow>
      url_form.originalUrl (url fs) \<noteq> [] \<and> \<not> parses (url_form.originalUrl (url fs))) \<and>
   (''Validity must be a positive integer'' \<in> set (validateForm parses (shortLinks st) (url fs)) \<longleftrightarrow>
      truthy (url_form.validityMinutes (url fs)) \<and>
      (\<not> isInteger (url_form.validityMinutes (url fs)) \<or> lt1 (url_form.validityMinutes (url fs)))) \<and>
   (''Shortcode must be 3-20 alphanumeric characters''
        \<in> set (validateForm parses (shortLinks st) (url fs)) \<longleftrightarrow>
      customShortcode (url fs) \<noteq> [] \<and> \<not> validateShortcode (customShortcode (url fs))) \<and>
   (''Shortcode already exists'' \<in> set (validateForm parses (shortLinks st) (url fs)) \<longleftrightarrow>
      customShortcode (url fs) \<noteq> [] \<and> validateShortcode (customShortcode (url fs)) \<and>
      customShortcode (url fs) \<in> shortcode ` set (shortLinks st)) \<and>
   distinct (validateForm parses (shortLinks st) (url fs)) \<and>
   (validateForm parses (shortLinks st) (url fs) \<noteq> [] \<longrightarrow>
      handleSubmit parses rnd newId clk (st, fs) =
        Some (log_ev (clk 0) ''error'' ''Form validation failed'' (ErrorsData (errors fs)) st,
              fs\<lparr>errors := validateForm parses (shortLinks st) (url fs)\<rparr>))"
proof (intro conjI impI)
  show "distinct (validateForm parses (shortLinks st) (url fs))"
    by (simp add: validateForm_def Let_def)
next
  assume "validateForm parses (shortLinks st) (url fs) \<noteq> []"
  then show "handleSubmit parses rnd newId clk (st, fs) =
        Some (log_ev (clk 0) ''error'' ''Form validation failed'' (ErrorsData (errors fs)) st,
              fs\<lparr>errors := validateForm parses (shortLinks st) (url fs)\<rparr>)"
    by (rule validateForm_failed)
qed (auto simp add: validateForm_def validateUrl_def Let_def)

text \<open>Three violations at once give three messages; an empty URL alone gives one.\<close>

theorem validateForm_accumulates_witness:
  "validateForm parses_https (shortLinks st_a) (url (form_of [] (Fin (3 / 2)) ''ab'')) =
     [''URL is required'', ''Validity must be a positive integer'',
      ''Shortcode must be 3-20 alphanumeric characters''] \<and>
   errors (snd (the (handleSubmit parses_https rnd_sample ''k3j9x0a1b'' clk_sample
      (st_a, form_of [] (Fin (3 / 2)) ''ab'')))) =
     [''URL is required'', ''Validity must be a positive integer'',
      ''Shortcode must be 3-20 alphanumeric characters''] \<and>
   validateForm parses_https (shortLinks st_a) (url (form_of [] (Fin 30) [])) = [''URL is required'']"
  using validateForm_accumulates [of parses_https st_a "form_of [] (Fin (3 / 2)) ''ab''" rnd_sample "''k3j9x0a1b''" clk_sample]
  by (simp add: validateForm_def validateShortcode_def form_of_def Let_def
      three_halves_not_integer thirty_integer del: isInteger.simps)

subsection \<open>Generated shortcodes\<close>

text \<open>With draws inside \<open>chars\<close>, a generated shortcode is six characters of \<open>chars\<close>.\<close>

lemma length_chars: "length chars = 62"
  by (simp add: chars_def)

lemma chars_alnum: "list_all alnum chars"
  by (simp add: chars_def alnum_def)

lemma upt_6: "[0..<6] = [0, 1, 2, 3, 4, 5]"
  by (simp add: upt_rec)

lemma generateShortcode_in_range:
  assumes "\<forall>n. rnd n < length chars"
  shows "generateShortcode rnd pos = map (\<lambda>i. chars ! rnd (pos + i)) [0..<6]"
  using assms by (simp add: generateShortcode_def charAt_def upt_6)

lemma generateShortcode_length:
  assumes "\<forall>n. rnd n < length chars"
  shows "length (generateShortcode rnd pos) = 6"
  by (simp add: generateShortcode_in_range [OF assms])

lemma generateShortcode_chars:
  assumes "\<forall>n. rnd n < length chars"
  shows "set (generateShortcode rnd pos) \<subseteq> set chars"
  using assms by (auto simp: generateShortcode_in_range [OF assms])

lemma generateShortcode_valid:
  assumes "\<forall>n. rnd n < length chars"
  shows "validateShortcode (generateShortcode rnd pos)"
proof -
  have "\<forall>c \<in> set chars. alnum c"
    using chars_alnum by (simp only: list_all_iff)
  with generateShortcode_chars [OF assms]
  have "list_all alnum (generateShortcode rnd pos)"
    by (auto simp: list_all_iff)
  then show ?thesis
    by (simp add: validateShortcode_def generateShortcode_length [OF assms])
qed

text \<open>
  The shortcode loop: what it returns is unused and is one of the codes generated; it
  returns as soon as some round generates an unused code; and it runs forever when the
  random source keeps drawing a used code.
\<close>

lemma uniqueShortcode_Some:
  assumes "uniqueShortcode rnd pos used = Some sc"
  shows "sc \<notin> used \<and> (\<exists>k. sc = generateShortcode rnd (pos + 6 * k))"
proof (rule uniqueShortcode.raw_induct
    [where P = "\<lambda>r p u s. s \<notin> u \<and> (\<exists>k. s = generateShortcode r (p + 6 * k))", OF _ assms])
  fix f :: "(nat \<Rightarrow> nat) \<Rightarrow> nat \<Rightarrow> string set \<Rightarrow> string option" and r p u s
  assume IH: "\<And>r p u s. f r p u = Some s \<Longrightarrow>
                 s \<notin> u \<and> (\<exists>k. s = generateShortcode r (p + 6 * k))"
    and eq: "(let sc = generateShortcode r p in if sc \<in> u then f r (p + 6) u else Some sc) = Some s"
  show "s \<notin> u \<and> (\<exists>k. s = generateShortcode r (p + 6 * k))"
  proof (cases "generateShortcode r p \<in> u")
    case True
    with eq have "f r (p + 6) u = Some s"
      by (simp add: Let_def)
    from IH [OF this] obtain k where "s \<notin> u"
      and "s = generateShortcode r (p + 6 + 6 * k)" by blast
    then have "s = generateShortcode r (p + 6 * Suc k)" by (simp add: add.assoc)
    with \<open>s \<notin> u\<close> show ?thesis by blast
  next
    case False
    with eq have "s = generateShortcode r p" by (simp add: Let_def)
    with False show ?thesis by (auto intro: exI [of _ 0])
  qed
qed

lemma uniqueShortcode_returns:
  assumes "generateShortcode rnd (pos + 6 * k) \<notin> used"
  shows "\<exists>sc. uniqueShortcode rnd pos used = Some sc"
  using assms
proof (induction k arbitrary: pos)
  case 0
  then show ?case by (subst uniqueShortcode.simps) (simp add: Let_def)
next
  case (Suc k)
  have "generateShortcode rnd (pos + 6 + 6 * k) \<notin> used"
    using Suc.prems by (simp add: add.assoc)
  from Suc.IH [OF this] show ?case
    by (subst uniqueShortcode.simps) (simp add: Let_def)
qed

lemma uniqueShortcode_stuck:
  "uniqueShortcode rnd_zero pos {''AAAAAA''} = None"
proof -
  have g: "\<And>p. generateShortcode rnd_zero p = ''AAAAAA''"
    by (simp add: generateShortcode_def rnd_zero_def charAt_def chars_def upt_6)
  have "\<forall>pos. uniqueShortcode rnd_zero pos {''AAAAAA''} = None"
  proof (rule ccontr)
    assume "\<not> (\<forall>pos. uniqueShortcode rnd_zero pos {''AAAAAA''} = None)"
    then obtain p sc where "uniqueShortcode rnd_zero p {''AAAAAA''} = Some sc" by auto
    from uniqueShortcode_Some [OF this] show False by (auto simp: g)
  qed
  then show ?thesis by simp
qed

text \<open>The two outcomes of a submission, and when it returns.\<close>

lemma handleSubmit_success:
  assumes "validateForm parses (shortLinks st) (url fs) = []"
    and "handleSubmit parses rnd newId clk (st, fs) = Some (st', fs')"
  shows "\<exists>l. shortLinks st' = shortLinks st @ [l] \<and> clickCount l = 0 \<and> clicks l = [] \<and>
           errors fs' = [] \<and>
           (if customShortcode (url fs) \<noteq> [] then shortcode l = customShortcode (url fs)
            else uniqueShortcode rnd 0 (set (map shortcode (shortLinks st))) = Some (shortcode l))"
  using assms
  by (auto simp: handleSubmit_def Let_def addShortLinks_def shortLinks_log_ev
      split: option.splits if_splits)

lemma handleSubmit_failure:
  assumes "validateForm parses (shortLinks st) (url fs) \<noteq> []"
    and "handleSubmit parses rnd newId clk (st, fs) = Some (st', fs')"
  shows "shortLinks st' = shortLinks st \<and> errors fs' = validateForm parses (shortLinks st) (url fs)"
  using assms by (auto simp: validateForm_failed shortLinks_log_ev)

lemma handleSubmit_returns:
  assumes "generateShortcode rnd (6 * k) \<notin> set (map shortcode (shortLinks st))"
  shows "\<exists>r. handleSubmit parses rnd newId clk (st, fs) = Some r"
proof -
  from assms have "generateShortcode rnd (0 + 6 * k) \<notin> set (map shortcode (shortLinks st))"
    by simp
  from uniqueShortcode_returns [OF this] obtain sc where
    "uniqueShortcode rnd 0 (set (map shortcode (shortLinks st))) = Some sc" by blast
  then show ?thesis by (simp add: handleSubmit_def Let_def)
qed

lemma handleSubmit_stuck:
  "handleSubmit parses_https rnd_zero ''q7w8e9r0t'' clk_late
     (\<lparr>shortLinks = [link_a\<lparr>shortcode := ''AAAAAA''\<rparr>], logs = []\<rparr>,
      form_of ''https://b.org'' (Fin 30) []) = None"
proof -
  have "validateForm parses_https [link_a\<lparr>shortcode := ''AAAAAA''\<rparr>]
          (url (form_of ''https://b.org'' (Fin 30) [])) = []"
    by code_simp
  then show ?thesis
    by (simp add: handleSubmit_def Let_def form_of_def uniqueShortcode_stuck)
qed

subsection \<open>Invariants of the registry\<close>

text \<open>The registry \<open>st_a\<close> is reached by one submission to the empty registry.\<close>

lemma create_a:
  "handleSubmit parses_https rnd_sample ''k3j9x0a1b'' clk_sample
     (st_empty, form_of ''https://a.com'' (Fin 1) ''validCode123'') = Some (st_a, form_done)"
  by code_simp

lemma rnd_sample_in_range: "rnd_sample n < length chars"
  by (simp add: rnd_sample_def length_chars)

lemma reachable_st_a: "reachable parses_https st_a"
proof -
  have "reachable parses_https st_empty"
    unfolding st_empty_def by (rule reachable.init)
  then show ?thesis
    by (rule reachable.create [OF _ rnd_sample_in_range create_a])
qed

text \<open>What each operation does to the records, and the shortcodes of a reached state.\<close>

lemma recordClick_counts_inv:
  assumes "\<forall>l \<in> set (shortLinks st). clickCount l = int (length (clicks l))"
  shows "\<forall>l \<in> set (shortLinks (recordClick t sc m st)). clickCount l = int (length (clicks l))"
  using assms by (auto simp: shortLinks_recordClick)

lemma shortLinks_getShortLink: "shortLinks (snd (getShortLink now t sc st)) = shortLinks st"
  by (simp add: getShortLink_def shortLinks_log_ev split: option.split)

lemma handleSubmit_links:
  assumes "handleSubmit parses rnd newId clk (st, fs) = Some (st', fs')"
  shows "shortLinks st' = shortLinks st \<or>
         (\<exists>l. shortLinks st' = shortLinks st @ [l] \<and> clickCount l = 0 \<and> clicks l = [] \<and>
            (if customShortcode (url fs) \<noteq> []
             then shortcode l = customShortcode (url fs) \<and> validateShortcode (shortcode l)
             else uniqueShortcode rnd 0 (set (map shortcode (shortLinks st))) = Some (shortcode l)))"
proof (cases "validateForm parses (shortLinks st) (url fs) = []")
  case True
  from handleSubmit_success [OF True assms] obtain l where
    l: "shortLinks st' = shortLinks st @ [l]" "clickCount l = 0" "clicks l = []"
    "if customShortcode (url fs) \<noteq> [] then shortcode l = customShortcode (url fs)
     else uniqueShortcode rnd 0 (set (map shortcode (shortLinks st))) = Some (shortcode l)"
    by blast
  have "customShortcode (url fs) \<noteq> [] \<Longrightarrow> validateShortcode (customShortcode (url fs))"
    using True by (auto simp: validateForm_def Let_def split: if_splits)
  with l show ?thesis by (auto split: if_splits)
next
  case False
  from handleSubmit_failure [OF False assms] show ?thesis by simp
qed

lemma reachable_shortcodes_valid:
  assumes "reachable parses st"
  shows "\<forall>l \<in> set (shortLinks st). validateShortcode (shortcode l)"
  using assms
proof (induction rule: reachable.induct)
  case init
  show ?case by simp
next
  case (create st rnd newId clk fs st' fs')
  have rng: "\<forall>n. rnd n < length chars" using create.hyps(2) by blast
  from handleSubmit_links [OF create.hyps(3)]
  show ?case
  proof
    assume "shortLinks st' = shortLinks st"
    with create.IH show ?thesis by simp
  next
    assume "\<exists>l. shortLinks st' = shortLinks st @ [l] \<and> clickCount l = 0 \<and> clicks l = [] \<and>
            (if customShortcode (url fs) \<noteq> []
             then shortcode l = customShortcode (url fs) \<and> validateShortcode (shortcode l)
             else uniqueShortcode rnd 0 (set (map shortcode (shortLinks st))) = Some (shortcode l))"
    then obtain l where l: "shortLinks st' = shortLinks st @ [l]"
      and c: "if customShortcode (url fs) \<noteq> []
             then shortcode l = customShortcode (url fs) \<and> validateShortcode (shortcode l)
             else uniqueShortcode rnd 0 (set (map shortcode (shortLinks st))) = Some (shortcode l)"
      by blast
    have "validateShortcode (shortcode l)"
    proof (cases "customShortcode (url fs) \<noteq> []")
      case True
      with c show ?thesis by metis
    next
      case False
      with c have "uniqueShortcode rnd 0 (set (map shortcode (shortLinks st))) = Some (shortcode l)"
        by simp
      from uniqueShortcode_Some [OF this] obtain k where "shortcode l = generateShortcode rnd (0 + 6 * k)"
        by blast
      then show ?thesis by (simp add: generateShortcode_valid [OF rng])
    qed
    with l create.IH show ?thesis by simp
  qed
next
  case (click st t sc metadata)
  then show ?case by (auto simp: shortLinks_recordClick)
next
  case (lookup st now t sc)
  then show ?case by (simp only: shortLinks_getShortLink)
qed

text \<open>
  C1. In every state the registry reaches from the empty one by submissions of the form,
  recorded clicks and lookups, each record's \<open>clickCount\<close> is the length of its \<open>clicks\<close>:
  a record is created with count 0 and no clicks, and a click adds one to both.
\<close>

theorem clickCount_is_length:
  assumes "reachable parses st" and "l \<in> set (shortLinks st)"
  shows "clickCount l = int (length (clicks l))"
proof -
  from assms(1) have "\<forall>l \<in> set (shortLinks st). clickCount l = int (length (clicks l))"
  proof (induction rule: reachable.induct)
    case init
    show ?case by simp
  next
    case (create st rnd newId clk fs st' fs')
    from handleSubmit_links [OF create.hyps(3)] create.IH show ?case by auto
  next
    case (click st t sc metadata)
    then show ?case by (intro recordClick_counts_inv)
  next
    case (lookup st now t sc)
    then show ?case by (simp only: shortLinks_getShortLink)
  qed
  with assms(2) show ?thesis by blast
qed

text \<open>The registry \<open>st_a\<close> after two clicks on its link.\<close>

theorem clickCount_is_length_witness:
  "reachable parses_https
     (recordClick 70101 ''validCode123'' click2 (recordClick 70001 ''validCode123'' click1 st_a)) \<and>
   link_a\<lparr>clickCount := 2, clicks := [click1, click2]\<rparr>
     \<in> set (shortLinks
         (recordClick 70101 ''validCode123'' click2 (recordClick 70001 ''validCode123'' click1 st_a))) \<and>
   clickCount (link_a\<lparr>clickCount := 2, clicks := [click1, click2]\<rparr>) =
     int (length (clicks (link_a\<lparr>clickCount := 2, clicks := [click1, click2]\<rparr>)))"
proof -
  have r: "reachable parses_https
     (recordClick 70101 ''validCode123'' click2 (recordClick 70001 ''validCode123'' click1 st_a))"
    by (intro reachable.click reachable_st_a)
  have m: "link_a\<lparr>clickCount := 2, clicks := [click1, click2]\<rparr>
     \<in> set (shortLinks
         (recordClick 70101 ''validCode123'' click2 (recordClick 70001 ''validCode123'' click1 st_a)))"
    by (simp add: shortLinks_recordClick st_a_def link_a_def)
  from r m clickCount_is_length [OF r m] show ?thesis by blast
qed

text \<open>
  C7. In every state the registry reaches, submitting a custom shortcode equal to the
  shortcode of a record of the registry fails: \<open>Shortcode already exists\<close> is among the
  errors and the records stay as they are. Neither the clock nor the record's \<open>expiresAt\<close>
  enters the condition, so the shortcode of an expired record is refused as well.
\<close>

theorem custom_shortcode_taken:
  assumes "reachable parses st" and "l \<in> set (shortLinks st)"
    and "customShortcode (url fs) = shortcode l"
  shows "''Shortcode already exists'' \<in> set (validateForm parses (shortLinks st) (url fs)) \<and>
         handleSubmit parses rnd newId clk (st, fs) =
           Some (log_ev (clk 0) ''error'' ''Form validation failed'' (ErrorsData (errors fs)) st,
                 fs\<lparr>errors := validateForm parses (shortLinks st) (url fs)\<rparr>) \<and>
         shortLinks (log_ev (clk 0) ''error'' ''Form validation failed'' (ErrorsData (errors fs)) st) =
           shortLinks st"
proof -
  from reachable_shortcodes_valid [OF assms(1)] assms(2)
  have v: "validateShortcode (shortcode l)" by blast
  then have ne: "shortcode l \<noteq> []" by (auto simp: validateShortcode_def)
  from assms(2) have "shortcode l \<in> set (map shortcode (shortLinks st))" by simp
  with v ne assms(3)
  have m: "''Shortcode already exists'' \<in> set (validateForm parses (shortLinks st) (url fs))"
    by (simp add: validateForm_def Let_def)
  then have "validateForm parses (shortLinks st) (url fs) \<noteq> []" by auto
  from validateForm_failed [OF this] m show ?thesis by (simp add: shortLinks_log_ev)
qed

text \<open>A second submission of \<open>validCode123\<close> at time 100000, after the link expired at 61000.\<close>

theorem custom_shortcode_taken_witness:
  "reachable parses_https st_a \<and> link_a \<in> set (shortLinks st_a) \<and>
   date_gt (Date (clk_late 0)) (expiresAt link_a) \<and>
   handleSubmit parses_https rnd_sample ''q7w8e9r0t'' clk_late
       (st_a, form_of ''https://b.org'' (Fin 30) ''validCode123'') =
     Some (log_ev 100000 ''error'' ''Form validation failed'' (ErrorsData []) st_a,
           (form_of ''https://b.org'' (Fin 30) ''validCode123'')
             \<lparr>errors := [''Shortcode already exists'']\<rparr>)"
proof -
  have m: "link_a \<in> set (shortLinks st_a)" by (simp add: st_a_def)
  have c: "customShortcode (url (form_of ''https://b.org'' (Fin 30) ''validCode123'')) = shortcode link_a"
    by (simp add: form_of_def link_a_def)
  have e: "validateForm parses_https (shortLinks st_a)
             (url (form_of ''https://b.org'' (Fin 30) ''validCode123'')) = [''Shortcode already exists'']"
    by code_simp
  have d: "date_gt (Date (clk_late 0)) (expiresAt link_a)"
    by (simp add: clk_late_def link_a_def)
  have z: "errors (form_of ''https://b.org'' (Fin 30) ''validCode123'') = []"
    by (simp add: form_of_def)
  have k: "clk_late 0 = 100000" by (simp add: clk_late_def)
  from custom_shortcode_taken [OF reachable_st_a m c, of rnd_sample "''q7w8e9r0t''" clk_late]
    reachable_st_a m d show ?thesis
    by (simp only: e z k)
qed

text \<open>
  C6. When a submission without a custom shortcode succeeds, the record it appends has a
  shortcode of six characters, all from \<open>chars\<close>, that matches \<open>validateShortcode\<close> and
  differs from the shortcode of every record already in the registry. The draws of the
  random source are indices into \<open>chars\<close>.
\<close>

theorem generated_shortcode_fresh:
  assumes "\<forall>n. rnd n < length chars" and "customShortcode (url fs) = []"
    and "handleSubmit parses rnd newId clk (st, fs) = Some (st', fs')"
    and "errors fs' = []"
  shows "\<exists>l. shortLinks st' = shortLinks st @ [l] \<and> length (shortcode l) = 6 \<and>
           set (shortcode l) \<subseteq> set chars \<and> validateShortcode (shortcode l) \<and>
           (\<forall>l' \<in> set (shortLinks st). shortcode l' \<noteq> shortcode l)"
proof -
  have ok: "validateForm parses (shortLinks st) (url fs) = []"
  proof (rule ccontr)
    assume n: "validateForm parses (shortLinks st) (url fs) \<noteq> []"
    from handleSubmit_failure [OF n assms(3)] assms(4) n show False by simp
  qed
  from handleSubmit_success [OF ok assms(3)] assms(2) obtain l where
    l: "shortLinks st' = shortLinks st @ [l]"
    and u: "uniqueShortcode rnd 0 (set (map shortcode (shortLinks st))) = Some (shortcode l)"
    by auto
  from uniqueShortcode_Some [OF u] obtain k where
    f: "shortcode l \<notin> set (map shortcode (shortLinks st))"
    and g: "shortcode l = generateShortcode rnd (0 + 6 * k)" by blast
  from f have "\<forall>l' \<in> set (shortLinks st). shortcode l' \<noteq> shortcode l"
    by (metis image_eqI set_map)
  with l g show ?thesis
    using generateShortcode_length [OF assms(1)] generateShortcode_chars [OF assms(1)]
      generateShortcode_valid [OF assms(1)]
    by (intro exI [of _ l]) simp
qed

lemma create_d:
  "handleSubmit parses_https rnd_sample ''q7w8e9r0t'' clk_late
     (st_d, form_of ''https://b.org'' (Fin 30) []) =
   Some (\<lparr>shortLinks =
            [link_a\<lparr>shortcode := ''DKRYfm''\<rparr>,
             \<lparr>link_id = ''q7w8e9r0t'', originalUrl = ''https://b.org'', shortcode = ''t07ELS'',
               validityMinutes = Fin 30, createdAt = Date 100000, expiresAt = Date 1900000,
               clickCount = 0, clicks = []\<rparr>],
          logs =
            [\<lparr>timestamp = Date 100001, level = ''info'', message = ''Added 1 short links'',
              data = CountData 1\<rparr>,
             \<lparr>timestamp = Date 100002, level = ''info'',
              message = ''Successfully created short link'', data = ShortcodeData ''t07ELS''\<rparr>]\<rparr>,
         form_done)"
  by code_simp

text \<open>The first six draws collide with the shortcode in \<open>st_d\<close>; the next six are taken.\<close>

theorem generated_shortcode_fresh_witness:
  "generateShortcode rnd_sample 0 = ''DKRYfm'' \<and>
   map shortcode (shortLinks st_d) = [''DKRYfm''] \<and>
   map_option (map shortcode \<circ> shortLinks \<circ> fst)
     (handleSubmit parses_https rnd_sample ''q7w8e9r0t'' clk_late
        (st_d, form_of ''https://b.org'' (Fin 30) [])) = Some [''DKRYfm'', ''t07ELS'']"
proof -
  have c: "customShortcode (url (form_of ''https://b.org'' (Fin 30) [])) = []"
    by (simp add: form_of_def)
  have e: "errors form_done = []" by (simp add: form_done_def)
  have r: "\<forall>n. rnd_sample n < length chars" by (simp add: rnd_sample_in_range)
  have g: "generateShortcode rnd_sample 0 = ''DKRYfm''" by code_simp
  have s: "map shortcode (shortLinks st_d) = [''DKRYfm'']" by (simp add: st_d_def)
  from generated_shortcode_fresh [OF r c create_d e] g s show ?thesis
    by (simp add: create_d)
qed

end
